theory Spec2Isabelle
  imports Main "HOL-Library.Sublist" "HOL-Library.AList"
begin

section \<open>Python text\<close>

text \<open>
  A Python \<open>str\<close> is a sequence of Unicode code points, so text is a list of code points
  (the header vocabulary of the detector is Cyrillic). \<open>asc\<close> writes an ASCII literal.
  The substring test \<open>a in b\<close> of Python is \<^const>\<open>sublist\<close> (a contiguous sublist).
\<close>

type_synonym pystr = "nat list"

definition asc :: "string \<Rightarrow> pystr" where
  "asc s = map of_char s"

text \<open>\<open>s.replace(old, new)\<close> for one-character \<open>old\<close> and \<open>new\<close>.\<close>

definition replace_char :: "nat \<Rightarrow> nat \<Rightarrow> pystr \<Rightarrow> pystr" where
  "replace_char old new s = map (\<lambda>c. if c = old then new else c) s"

text \<open>\<open>s.replace('__', '_')\<close>: the occurrences are found left to right and do not overlap.\<close>

fun replace_double_underscore :: "pystr \<Rightarrow> pystr" where
  "replace_double_underscore (a # b # s) =
     (if a = 95 \<and> b = 95 then 95 # replace_double_underscore s
      else a # replace_double_underscore (b # s))"
| "replace_double_underscore s = s"

text \<open>\<open>s.strip(c)\<close> for a one-character argument: the character is removed at both ends.\<close>

definition strip_char :: "nat \<Rightarrow> pystr \<Rightarrow> pystr" where
  "strip_char c s = rev (dropWhile (\<lambda>x. x = c) (rev (dropWhile (\<lambda>x. x = c) s)))"

text \<open>The characters \<open>str.isspace\<close> accepts; \<open>s.strip()\<close> removes them at both ends.\<close>

definition py_isspace :: "nat \<Rightarrow> bool" where
  "py_isspace c \<longleftrightarrow> c \<in> set [9, 10, 11, 12, 13, 28, 29, 30, 31, 32, 133, 160, 5760,
     8192, 8193, 8194, 8195, 8196, 8197, 8198, 8199, 8200, 8201, 8202, 8232, 8233, 8239,
     8287, 12288]"

definition py_strip :: "pystr \<Rightarrow> pystr" where
  "py_strip s = rev (dropWhile py_isspace (rev (dropWhile py_isspace s)))"

text \<open>The class \<open>[0-9]\<close> and the class \<open>[a-zA-Z0-9_]\<close> of the regular expressions.\<close>

definition is_digit :: "nat \<Rightarrow> bool" where
  "is_digit c \<longleftrightarrow> 48 \<le> c \<and> c \<le> 57"

definition is_word_char :: "nat \<Rightarrow> bool" where
  "is_word_char c \<longleftrightarrow> (97 \<le> c \<and> c \<le> 122) \<or> (65 \<le> c \<and> c \<le> 90) \<or> is_digit c \<or> c = 95"

text \<open>\<open>re.sub(r'^[0-9]+', '', s)\<close>: the leading run of digits is removed.\<close>

definition strip_leading_digits :: "pystr \<Rightarrow> pystr" where
  "strip_leading_digits s = dropWhile is_digit s"

text \<open>The decimal rendering of a counter in an f-string.\<close>

fun str_of_nat :: "nat \<Rightarrow> pystr" where
  "str_of_nat n = (if n < 10 then [48 + n] else str_of_nat (n div 10) @ [48 + n mod 10])"

declare str_of_nat.simps [simp del]

definition nat_of_str :: "pystr \<Rightarrow> nat" where
  "nat_of_str s = foldl (\<lambda>a d. 10 * a + (d - 48)) 0 s"

lemma nat_of_str_of_nat: "nat_of_str (str_of_nat n) = n"
proof (induction n rule: str_of_nat.induct)
  case (1 n)
  show ?case
  proof (cases "n < 10")
    case True
    then show ?thesis
      by (subst str_of_nat.simps) (simp add: nat_of_str_def)
  next
    case False
    with 1 have "nat_of_str (str_of_nat (n div 10)) = n div 10"
      by simp
    with False show ?thesis
      by (subst str_of_nat.simps) (simp add: nat_of_str_def)
  qed
qed

lemma str_of_nat_inj: "str_of_nat a = str_of_nat b \<Longrightarrow> a = b"
  by (metis nat_of_str_of_nat)

section \<open>The column sanitizer: \<open>clean_column_name\<close>\<close>

text \<open>
  The thirty characters of \<open>invalid_chars\<close>, in the order of the source: space and
  \<open>- . ( ) [ ] { } ! @ # $ % ^ & * + = | \ / : ; " ' , < > ?\<close>.
\<close>

definition invalid_chars :: "nat list" where
  "invalid_chars = [32, 45, 46, 40, 41, 91, 93, 123, 125, 33, 64, 35, 36, 37, 94, 38, 42, 43,
     61, 124, 92, 47, 58, 59, 34, 39, 44, 60, 62, 63]"

definition unnamed_column :: pystr where
  "unnamed_column = asc ''unnamed_column''"

lemma replace_double_underscore_length: "length (replace_double_underscore s) \<le> length s"
  by (induction s rule: replace_double_underscore.induct) auto

lemma replace_double_underscore_shorter:
  "sublist [95, 95] s \<Longrightarrow> length (replace_double_underscore s) < length s"
proof (induction s rule: replace_double_underscore.induct)
  case (1 a b s)
  show ?case
  proof (cases "a = 95 \<and> b = 95")
    case True
    then show ?thesis
      using replace_double_underscore_length [of s] by simp
  next
    case False
    with 1 show ?thesis by (auto simp: sublist_code)
  qed
qed (simp_all add: sublist_code)

text \<open>\<open>while '__' in column_name: column_name = column_name.replace('__', '_')\<close>\<close>

function collapse_underscores :: "pystr \<Rightarrow> pystr" where
  "collapse_underscores s =
     (if sublist [95, 95] s then collapse_underscores (replace_double_underscore s) else s)"
  by pat_completeness auto
termination
  by (relation "measure length") (simp_all add: replace_double_underscore_shorter)

declare collapse_underscores.simps [simp del]

text \<open>
  The candidate \<open>f"{original_name}_{counter}"\<close>, and the loop
  \<open>while column_name in existing_columns\<close> on the pair (\<open>column_name\<close>, \<open>counter\<close>).
  The set \<open>existing_columns\<close> is a list read through \<^const>\<open>set\<close>.
\<close>

definition candidate :: "pystr \<Rightarrow> nat \<Rightarrow> pystr" where
  "candidate original_name counter = original_name @ [95] @ str_of_nat counter"

lemma candidate_inj: "candidate n j = candidate n k \<Longrightarrow> j = k"
  by (simp add: candidate_def str_of_nat_inj)

definition later_candidates :: "pystr \<Rightarrow> pystr list \<Rightarrow> nat \<Rightarrow> pystr list" where
  "later_candidates n ex k = filter (\<lambda>e. \<exists>j\<ge>k. e = candidate n j) ex"

lemma later_candidates_Suc:
  "later_candidates n ex (Suc k) =
     filter (\<lambda>e. \<exists>j\<ge>Suc k. e = candidate n j) (later_candidates n ex k)"
proof -
  have "(\<lambda>e. (\<exists>j\<ge>k. e = candidate n j) \<and> (\<exists>j\<ge>Suc k. e = candidate n j))
      = (\<lambda>e. \<exists>j\<ge>Suc k. e = candidate n j)"
  proof (intro ext iffI)
    fix e
    assume "(\<exists>j\<ge>k. e = candidate n j) \<and> (\<exists>j\<ge>Suc k. e = candidate n j)"
    then show "\<exists>j\<ge>Suc k. e = candidate n j"
      by simp
  next
    fix e
    assume "\<exists>j\<ge>Suc k. e = candidate n j"
    then obtain j where j: "Suc k \<le> j" "e = candidate n j"
      by blast
    then have "k \<le> j"
      by simp
    with j show "(\<exists>j\<ge>k. e = candidate n j) \<and> (\<exists>j\<ge>Suc k. e = candidate n j)"
      by blast
  qed
  then show ?thesis
    by (simp only: later_candidates_def filter_filter)
qed

lemma later_candidates_le:
  "length (later_candidates n ex (Suc k)) \<le> length (later_candidates n ex k)"
  by (subst later_candidates_Suc) (rule length_filter_le)

lemma later_candidates_less:
  assumes "candidate n k \<in> set ex"
  shows "length (later_candidates n ex (Suc k)) < length (later_candidates n ex k)"
proof -
  have in_k: "candidate n k \<in> set (later_candidates n ex k)"
    using assms by (auto simp: later_candidates_def)
  have "\<not> (\<exists>j\<ge>Suc k. candidate n k = candidate n j)"
    using candidate_inj by fastforce
  with in_k show ?thesis
    by (subst later_candidates_Suc) (rule length_filter_less)
qed

function dedup_loop :: "pystr \<Rightarrow> pystr list \<Rightarrow> pystr \<Rightarrow> nat \<Rightarrow> pystr" where
  "dedup_loop original_name existing_columns column_name counter =
     (if column_name \<in> set existing_columns
      then dedup_loop original_name existing_columns
             (candidate original_name counter) (counter + 1)
      else column_name)"
  by pat_completeness auto
termination
proof (relation "measure (\<lambda>(n, ex, cur, k).
          2 * length (later_candidates n ex k) + (if cur \<in> set ex then 1 else 0))")
  show "wf (measure (\<lambda>(n, ex, cur, k).
          2 * length (later_candidates n ex k) + (if cur \<in> set ex then 1 else 0)))"
    by simp
next
  fix original_name :: pystr and existing_columns :: "pystr list"
    and column_name :: pystr and counter :: nat
  assume "column_name \<in> set existing_columns"
  then show "((original_name, existing_columns, candidate original_name counter, counter + 1),
      original_name, existing_columns, column_name, counter)
    \<in> measure (\<lambda>(n, ex, cur, k).
          2 * length (later_candidates n ex k) + (if cur \<in> set ex then 1 else 0))"
    using later_candidates_less [of original_name counter existing_columns]
      later_candidates_le [of original_name existing_columns counter]
    by auto
qed

declare dedup_loop.simps [simp del]

text \<open>
  Lines 376 to 405: the clean-up of a name that is not \<open>None\<close>. The argument is the text
  \<open>str(column_name)\<close> of the column label.
\<close>

definition normalize_name :: "pystr \<Rightarrow> pystr" where
  "normalize_name column_name =
     (let s1 = foldl (\<lambda>s c. replace_char c 95 s) column_name invalid_chars;
          s2 = collapse_underscores s1;
          s3 = strip_char 95 s2;
          s4 = (if s3 = [] then unnamed_column else s3);
          s5 = strip_leading_digits s4;
          s6 = strip_char 95 s5;
          s7 = (if s6 = [] then unnamed_column else s6)
      in if length s7 > 50 then take 50 s7 else s7)"

text \<open>
  \<open>clean_column_name(column_name, existing_columns=None)\<close>. The label is \<open>None\<close> or has
  the text \<open>str(column_name)\<close>; the set is absent or given. The result is the returned
  name with the set as the call leaves it: \<open>None\<close> returns at once, before the set is read.
\<close>

definition clean_column_name ::
    "pystr option \<Rightarrow> pystr list option \<Rightarrow> pystr \<times> pystr list option" where
  "clean_column_name column_name existing_columns =
     (case column_name of
        None \<Rightarrow> (unnamed_column, existing_columns)
      | Some s \<Rightarrow>
          (case existing_columns of
             None \<Rightarrow> (normalize_name s, None)
           | Some ex \<Rightarrow>
               (let original_name = normalize_name s;
                    chosen = dedup_loop original_name ex original_name 1
                in (chosen, Some (List.insert chosen ex)))))"

text \<open>The sanitizer called without a set, on a text.\<close>

definition sanitize :: "pystr \<Rightarrow> pystr" where
  "sanitize x = fst (clean_column_name (Some x) None)"

text \<open>The sanitizer called with a set, on a text: the returned name and the set after the call.\<close>

definition sanitize_in :: "pystr \<Rightarrow> pystr list \<Rightarrow> pystr \<times> pystr list" where
  "sanitize_in x ex =
     (case clean_column_name (Some x) (Some ex) of
        (n, Some ex') \<Rightarrow> (n, ex')
      | (n, None) \<Rightarrow> (n, ex))"

section \<open>The table-name sanitizer: \<open>get_safe_table_name\<close>\<close>

text \<open>\<open>re.sub(r'_+', '_', s)\<close>: every maximal run of underscores becomes one underscore.\<close>

fun collapse_runs :: "pystr \<Rightarrow> pystr" where
  "collapse_runs (a # b # s) =
     (if a = 95 \<and> b = 95 then collapse_runs (b # s) else a # collapse_runs (b # s))"
| "collapse_runs s = s"

definition unnamed_table :: pystr where
  "unnamed_table = asc ''unnamed_table''"

text \<open>
  The first argument is \<open>Path(file_path).stem\<close>, the second the sheet name (\<open>None\<close> by
  default). The last test applies \<open>str.isdigit\<close> to a character that the first
  substitution left in \<open>[a-zA-Z0-9_]\<close>, where it is the test for an ASCII digit.
\<close>

definition get_safe_table_name :: "pystr \<Rightarrow> pystr option \<Rightarrow> pystr" where
  "get_safe_table_name file_name sheet_name =
     (let t0 = (case sheet_name of
                  None \<Rightarrow> file_name
                | Some sh \<Rightarrow> if sh \<noteq> [] \<and> sh \<noteq> asc ''CSV'' then file_name @ [95] @ sh
                             else file_name);
          t1 = map (\<lambda>c. if is_word_char c then c else 95) t0;
          t2 = collapse_runs t1;
          t3 = strip_char 95 t2;
          t4 = strip_leading_digits t3;
          t5 = strip_char 95 t4;
          t6 = (if length t5 > 50 then take 50 t5 else t5);
          t7 = (if t6 = [] then unnamed_table else t6)
      in if t7 \<noteq> [] \<and> is_digit (hd t7) then asc ''table_'' @ t7 else t7)"

section \<open>The header detector: \<open>detect_data_start_row\<close>\<close>

text \<open>
  A cell of a grid or of a parsed table. \<open>CNull\<close> is a cell that \<open>pd.isna\<close> accepts
  (\<open>None\<close>, NaN, NaT). \<open>CBool\<close> and \<open>CInt\<close> are the instances of \<open>int\<close>, \<open>CFloat\<close> the
  instances of \<open>float\<close> that are not NaN, \<open>CStr\<close> the instances of \<open>str\<close>, \<open>COther\<close> every
  other object (a timestamp, a numpy integer). Floating-point arithmetic is not modelled:
  the program only applies \<open>str\<close> to such a cell, so a \<open>CFloat\<close> or \<open>COther\<close> cell is
  given by the text \<open>str(value)\<close>.
\<close>

datatype cell = CNull | CBool bool | CInt int | CFloat pystr | CStr pystr | COther pystr

text \<open>The three word lists of the source, as code points.\<close>

definition typical_headers :: "pystr list" where
  "typical_headers = [
    [1072, 1088, 1090, 1080, 1082, 1091, 1083],
    [1085, 1072, 1080, 1084, 1077, 1085, 1086, 1074, 1072, 1085, 1080, 1077],
    [1085, 1072, 1079, 1074, 1072, 1085, 1080, 1077], [1082, 1086, 1076],
    [1085, 1086, 1084, 1077, 1088], [1094, 1077, 1085, 1072],
    [1089, 1090, 1086, 1080, 1084, 1086, 1089, 1090, 1100],
    [1082, 1086, 1083, 1080, 1095, 1077, 1089, 1090, 1074, 1086], [1077, 1076], [1096, 1090],
    [1088, 1091, 1073], [117, 115, 100], [101, 117, 114],
    [99, 97, 116, 101, 103, 111, 114, 121],
    [1082, 1072, 1090, 1077, 1075, 1086, 1088, 1080, 1103],
    [112, 97, 114, 116, 110, 117, 109, 98, 101, 114],
    [1086, 1087, 1080, 1089, 1072, 1085, 1080, 1077],
    [1093, 1072, 1088, 1072, 1082, 1090, 1077, 1088, 1080, 1089, 1090, 1080, 1082, 1080],
    [1074, 1077, 1089], [1086, 1073, 1098, 1077, 1084],
    [1085, 1086, 1084, 1077, 1085, 1082, 1083, 1072, 1090, 1091, 1088, 1072],
    [1079, 1072, 1082, 1072, 1079], [1090, 1086, 1074, 1072, 1088],
    [1087, 1088, 1086, 1076, 1091, 1082, 1090], [1080, 1079, 1076, 1077, 1083, 1080, 1077],
    [1084, 1086, 1076, 1077, 1083, 1100], [1084, 1072, 1088, 1082, 1072],
    [1073, 1088, 1077, 1085, 1076],
    [1087, 1088, 1086, 1080, 1079, 1074, 1086, 1076, 1080, 1090, 1077, 1083, 1100],
    [1087, 1086, 1089, 1090, 1072, 1074, 1097, 1080, 1082],
    [1084, 1072, 1090, 1077, 1088, 1080, 1072, 1083], [1094, 1074, 1077, 1090],
    [1088, 1072, 1079, 1084, 1077, 1088], [1076, 1083, 1080, 1085, 1072],
    [1096, 1080, 1088, 1080, 1085, 1072], [1074, 1099, 1089, 1086, 1090, 1072],
    [1076, 1080, 1072, 1084, 1077, 1090, 1088],
    [1084, 1086, 1097, 1085, 1086, 1089, 1090, 1100],
    [1085, 1072, 1087, 1088, 1103, 1078, 1077, 1085, 1080, 1077], [1090, 1086, 1082],
    [1095, 1072, 1089, 1090, 1086, 1090, 1072],
    [1090, 1077, 1084, 1087, 1077, 1088, 1072, 1090, 1091, 1088, 1072],
    [1076, 1072, 1074, 1083, 1077, 1085, 1080, 1077],
    [1089, 1082, 1086, 1088, 1086, 1089, 1090, 1100], [1074, 1088, 1077, 1084, 1103],
    [1076, 1072, 1090, 1072], [1089, 1091, 1084, 1084, 1072], [1080, 1090, 1086, 1075, 1086],
    [1089, 1082, 1080, 1076, 1082, 1072], [1085, 1072, 1094, 1077, 1085, 1082, 1072],
    [1085, 1072, 1083, 1086, 1075], [1087, 1086, 1096, 1083, 1080, 1085, 1072],
    [1076, 1086, 1089, 1090, 1072, 1074, 1082, 1072],
    [1091, 1087, 1072, 1082, 1086, 1074, 1082, 1072],
    [1075, 1072, 1088, 1072, 1085, 1090, 1080, 1103], [1089, 1077, 1088, 1074, 1080, 1089],
    [1086, 1073, 1089, 1083, 1091, 1078, 1080, 1074, 1072, 1085, 1080, 1077], [1082, 1075],
    [1075], [1083], [1084, 1083], [1084], [1089, 1084], [1084, 1084], [1082, 1074, 46, 1084],
    [1082, 1091, 1073, 46, 1084], [1096, 1090], [1082, 1086, 1084, 1087, 1083],
    [1091, 1087, 1072, 1082], [1087, 1072, 1095, 1082, 1072],
    [1082, 1086, 1088, 1086, 1073, 1082, 1072], [1103, 1097, 1080, 1082],
    [1084, 1077, 1096, 1086, 1082], [1089, 1090, 1072, 1090, 1091, 1089],
    [1089, 1086, 1089, 1090, 1086, 1103, 1085, 1080, 1077],
    [1085, 1072, 1083, 1080, 1095, 1080, 1077], [1086, 1089, 1090, 1072, 1090, 1086, 1082],
    [1089, 1082, 1083, 1072, 1076], [1084, 1077, 1089, 1090, 1086],
    [1072, 1076, 1088, 1077, 1089], [1082, 1086, 1085, 1090, 1072, 1082, 1090],
    [1090, 1077, 1083, 1077, 1092, 1086, 1085], [101, 109, 97, 105, 108],
    [1089, 1072, 1081, 1090], [1080, 1085, 1092, 1086, 1088, 1084, 1072, 1094, 1080, 1103]]"

definition strong_headers :: "pystr list" where
  "strong_headers = [
    [1079, 1072, 1082, 1072, 1079], [1085, 1072, 1079, 1074, 1072, 1085, 1080, 1077],
    [1072, 1088, 1090, 1080, 1082, 1091, 1083], [1082, 1086, 1076], [1094, 1077, 1085, 1072],
    [1085, 1086, 1084, 1077, 1085, 1082, 1083, 1072, 1090, 1091, 1088, 1072]]"

definition service_words :: "pystr list" where
  "service_words = [
    [1101, 1083, 1077, 1082, 1090, 1088, 1086, 1088, 1077, 1096, 1077, 1085, 1080, 1103],
    [1091, 1089, 1090, 1086, 1081, 1095, 1080, 1074, 1086, 1075, 1086],
    [1073, 1091, 1076, 1091, 1097, 1077, 1075, 1086],
    [1082, 1072, 1083, 1100, 1082, 1091, 1083, 1103, 1090, 1086, 1088, 1099],
    [1082, 1086, 1085, 1092, 1080, 1075, 1091, 1088, 1072, 1090, 1086, 1088, 1099],
    [1072, 1088, 1090, 1080, 1082, 1091, 1083, 1086, 1074],
    [1089, 1086, 1073, 1089, 1090, 1074, 1077, 1085, 1085, 1099, 1093],
    [1087, 1088, 1086, 1080, 1079, 1074, 1086, 1076, 1089, 1090, 1074, 1077, 1085, 1085, 1099, 1093],
    [1082, 1086, 1084, 1087, 1083, 1077, 1082, 1089, 1072], [1080, 1090, 1086, 1075, 1086],
    [1079, 1077, 1083, 1077, 1085, 1099, 1081], [1094, 1074, 1077, 1090],
    [1085, 1072, 1080, 1084, 1077, 1085, 1086, 1074, 1072, 1085, 1080, 1103],
    [1087, 1086, 1079, 1080, 1094, 1080, 1103],
    [1086, 1078, 1080, 1076, 1072, 1077, 1090, 1089, 1103],
    [1091, 1082, 1072, 1079, 1072, 1085, 1085, 1091, 1102], [1076, 1072, 1090, 1091],
    [1086, 1088, 1072, 1085, 1078, 1077, 1074, 1099, 1081],
    [1085, 1086, 1074, 1080, 1085, 1082, 1080],
    [1101, 1082, 1089, 1087, 1088, 1077, 1089, 1089],
    [1076, 1086, 1089, 1090, 1072, 1074, 1082, 1072],
    [1086, 1090, 1092, 1080, 1083, 1100, 1090, 1088, 1091, 1081, 1090, 1077],
    [1085, 1077, 1087, 1091, 1089, 1090, 1099, 1077],
    [1079, 1085, 1072, 1095, 1077, 1085, 1080, 1103], [1087, 1086, 1083, 1102], [105, 109, 115],
    [1085, 1072, 1078, 1084, 1080, 1090, 1077],
    [1079, 1072, 1075, 1088, 1091, 1079, 1080, 1090, 1100], [120, 108, 115]]"

text \<open>
  The three counting loops have one shape: a cell counts once (\<open>break\<close>) when it is a
  string (\<open>pd.notna(val) and isinstance(val, str)\<close>) and one of the words is a substring of
  \<open>val.lower().strip()\<close>. \<open>str.lower\<close> is the Unicode lower-casing of the Python library
  and is a parameter of the model.
\<close>

definition cell_matches :: "(pystr \<Rightarrow> pystr) \<Rightarrow> pystr list \<Rightarrow> cell \<Rightarrow> bool" where
  "cell_matches lower ws val =
     (case val of
        CStr s \<Rightarrow> (let val_lower = py_strip (lower s) in list_ex (\<lambda>w. sublist w val_lower) ws)
      | _ \<Rightarrow> False)"

definition found_headers :: "(pystr \<Rightarrow> pystr) \<Rightarrow> cell list \<Rightarrow> nat" where
  "found_headers lower row = length (filter (cell_matches lower typical_headers) row)"

definition strong_matches :: "(pystr \<Rightarrow> pystr) \<Rightarrow> cell list \<Rightarrow> nat" where
  "strong_matches lower row = length (filter (cell_matches lower strong_headers) row)"

definition service_count :: "(pystr \<Rightarrow> pystr) \<Rightarrow> cell list \<Rightarrow> nat" where
  "service_count lower row = length (filter (cell_matches lower service_words) row)"

text \<open>The loop \<open>for i in range(min(30, len(df)))\<close> over the indices still to visit.\<close>

fun detect_loop :: "(pystr \<Rightarrow> pystr) \<Rightarrow> cell list list \<Rightarrow> nat list \<Rightarrow> nat option" where
  "detect_loop lower df [] = None"
| "detect_loop lower df (i # rest) =
     (let row = df ! i in
      if service_count lower row > 2 then detect_loop lower df rest
      else if found_headers lower row \<ge> 3 \<or> strong_matches lower row \<ge> 2 then Some i
      else detect_loop lower df rest)"

definition detect_data_start_row :: "(pystr \<Rightarrow> pystr) \<Rightarrow> cell list list \<Rightarrow> nat" where
  "detect_data_start_row lower df =
     (case detect_loop lower df [0..<min 30 (length df)] of Some i \<Rightarrow> i | None \<Rightarrow> 0)"

text \<open>
  The specification of the detector, in its own words and apart from the counters of the
  code. A cell matches a vocabulary when it is a text that, lower-cased and stripped,
  contains one of its terms; the count of a row is the number of its cells (positions)
  that match, each cell once. A row qualifies as a header when its boilerplate count does
  not exceed 2 and it has at least 3 cells matching the header vocabulary or at least 2
  cells matching the strong indicators.
\<close>

definition matches_vocabulary :: "(pystr \<Rightarrow> pystr) \<Rightarrow> pystr list \<Rightarrow> cell \<Rightarrow> bool" where
  "matches_vocabulary lower ws val \<longleftrightarrow>
     (\<exists>s w. val = CStr s \<and> w \<in> set ws \<and> sublist w (py_strip (lower s)))"

definition matching_cells :: "(pystr \<Rightarrow> pystr) \<Rightarrow> pystr list \<Rightarrow> cell list \<Rightarrow> nat" where
  "matching_cells lower ws row =
     card {j. j < length row \<and> matches_vocabulary lower ws (row ! j)}"

definition qualifies_as_header :: "(pystr \<Rightarrow> pystr) \<Rightarrow> cell list \<Rightarrow> bool" where
  "qualifies_as_header lower row \<longleftrightarrow>
     \<not> matching_cells lower service_words row > 2
     \<and> (matching_cells lower typical_headers row \<ge> 3
        \<or> matching_cells lower strong_headers row \<ge> 2)"

text \<open>
  A lower-casing for evaluating examples: it agrees with \<open>str.lower\<close> on ASCII and on the
  Cyrillic letters U+0410 to U+042F, and leaves every other code point alone.
\<close>

definition lower_basic :: "pystr \<Rightarrow> pystr" where
  "lower_basic s =
     map (\<lambda>c. if (65 \<le> c \<and> c \<le> 90) \<or> (1040 \<le> c \<and> c \<le> 1071) then c + 32 else c) s"

text \<open>
  Two grids for evaluating the detector. The first has a banner row with three boilerplate
  cells and two strong-indicator cells, then a header row with two strong-indicator
  cells, then a data row. The second has a title row, then a header row with three cells
  of the header vocabulary none of which is a strong indicator, then a data row.
\<close>

definition banner_row :: "cell list" where
  "banner_row = [CStr (asc ''ims''), CStr (asc ''xls''), CStr (asc ''IMS''),
     CStr [1082, 1086, 1076], CStr [1094, 1077, 1085, 1072]]"

definition header_row :: "cell list" where
  "header_row = [CStr [1050, 1086, 1076], CStr [1062, 1077, 1085, 1072]]"

definition example_grid :: "cell list list" where
  "example_grid = [banner_row, header_row, [CStr (asc ''A-1''), CInt 5]]"

definition currency_row :: "cell list" where
  "currency_row = [CStr (asc ''USD''), CStr (asc '' eur ''), CInt 7, CStr (asc ''Category'')]"

definition currency_grid :: "cell list list" where
  "currency_grid = [[CStr (asc ''Price list''), CNull, CNull, CNull], currency_row,
     [CStr (asc ''A-1''), CInt 5, CInt 7, CStr (asc ''x'')]]"

section \<open>The storage collaborator\<close>

text \<open>
  The relational store, as far as the program uses it. A value bound to a statement is
  \<open>NULL\<close>, an integer, a float (given by its text, see \<^typ>\<open>cell\<close>) or a text; a row is
  the dictionary \<open>insert_data\<close>, an association list in insertion order, and a column it
  does not name is \<open>NULL\<close>. A table has its column names, the columns declared
  \<open>NOT NULL\<close> and \<open>UNIQUE\<close>, and its rows; the columns \<open>id\<close> and \<open>processed_at\<close> are
  filled by the engine and are not part of a row. Identifiers are compared as Python
  compares them (exactly); the lexical rules of the engine for identifiers are not
  modelled.
\<close>

datatype py_error = IndexError | OperationalError | IntegrityError | DecodeError

datatype sqlval = VNull | VInt int | VFloat pystr | VText pystr

type_synonym bindings = "(pystr \<times> sqlval) list"

record table =
  t_cols :: "pystr list"
  t_notnull :: "pystr list"
  t_unique :: "pystr list"
  t_rows :: "bindings list"

type_synonym database = "(pystr \<times> table) list"

definition cell_at :: "bindings \<Rightarrow> pystr \<Rightarrow> sqlval" where
  "cell_at row c = (case map_of row c of None \<Rightarrow> VNull | Some v \<Rightarrow> v)"













section \<open>Schema materialisation and insertion\<close>


definition pricelists_metadata :: pystr where
  "pricelists_metadata = asc ''pricelists_metadata''"




text \<open>
  A parsed table (a pandas \<open>DataFrame\<close> read with a header): the column labels, each by
  its text \<open>str(label)\<close>, and the rows. pandas makes the labels of one table distinct,
  so \<open>row[col]\<close> is the cell at the position of \<open>col\<close>, and the loop
  \<open>for col in df.columns\<close> visits the labels paired with the cells of the row. The index
  is the default one, so \<open>iterrows\<close> yields the position of a row as its index.
\<close>

record dataframe =
  df_columns :: "pystr list"
  df_rows :: "cell list list"



text \<open>The decimal text of a Python \<open>int\<close>.\<close>

definition str_of_int :: "int \<Rightarrow> pystr" where
  "str_of_int i = (if i < 0 then 45 # str_of_nat (nat (- i)) else str_of_nat (nat i))"












section \<open>The ingestion pipeline\<close>

text \<open>
  What the decoding collaborator yields for a sheet: its name, the grid read with
  \<open>header=None\<close> or the exception of that read, and for each header row index the table
  read with that header or the exception of that read.
\<close>

record sheet =
  sheet_name :: pystr
  sheet_raw :: "py_error + cell list list"
  sheet_parsed :: "nat \<Rightarrow> py_error + dataframe"

text \<open>One attempt of \<open>pd.read_csv\<close> with an encoding.\<close>

datatype csv_read = Decoded dataframe | UnicodeDecodeError | ReadFailed py_error

text \<open>
  A discovered file: \<open>os.path.basename\<close>, \<open>Path.stem\<close> and the lower-cased
  \<open>Path.suffix\<close> of its path, its size in MB (a float, given by its text), what
  \<open>pd.ExcelFile\<close> yields (the sheets, or an exception) and what \<open>pd.read_csv\<close> yields for
  each of the four encodings of the source, in their order.
\<close>

record source_file =
  f_basename :: pystr
  f_stem :: pystr
  f_suffix :: pystr
  f_size_mb :: pystr
  f_excel :: "py_error + sheet list"
  f_csv :: "csv_read list"










section \<open>The reporting surface: the fetch filtered by source file\<close>

text \<open>\<open>s.split()\<close>: the maximal runs of characters that are not white space.\<close>

fun py_split_from :: "pystr \<Rightarrow> pystr \<Rightarrow> pystr list" where
  "py_split_from cur [] = (if cur = [] then [] else [cur])"
| "py_split_from cur (c # s) =
     (if py_isspace c then (if cur = [] then py_split_from [] s else cur # py_split_from [] s)
      else py_split_from (cur @ [c]) s)"

definition py_split :: "pystr \<Rightarrow> pystr list" where
  "py_split s = py_split_from [] s"

text \<open>
  The \<open>LIKE\<close> operator of the engine with its defaults: \<open>%\<close> (37) matches any run of
  characters, \<open>_\<close> (95) any one character, and every other character matches itself,
  the ASCII letters without regard to case.
\<close>

definition ascii_fold :: "nat \<Rightarrow> nat" where
  "ascii_fold c = (if 65 \<le> c \<and> c \<le> 90 then c + 32 else c)"

definition char_like :: "nat \<Rightarrow> nat \<Rightarrow> bool" where
  "char_like p c \<longleftrightarrow> p = 95 \<or> ascii_fold p = ascii_fold c"

fun sql_like :: "pystr \<Rightarrow> pystr \<Rightarrow> bool" where
  "sql_like [] s = (s = [])"
| "sql_like (p # ps) [] = (if p = 37 then sql_like ps [] else False)"
| "sql_like (p # ps) (c # cs) =
     (if p = 37 then sql_like ps (c # cs) \<or> sql_like (p # ps) cs
      else char_like p c \<and> sql_like ps cs)"

definition like_value :: "pystr \<Rightarrow> sqlval \<Rightarrow> bool" where
  "like_value pattern v =
     (case v of
        VNull \<Rightarrow> False
      | VInt i \<Rightarrow> sql_like pattern (str_of_int i)
      | VFloat f \<Rightarrow> sql_like pattern f
      | VText s \<Rightarrow> sql_like pattern s)"

text \<open>
  The query of \<open>search_by_source\<close> and of \<open>export_by_source\<close>:
  \<open>SELECT table_name, source_sheet, row_count FROM pricelists_metadata WHERE
  source_file LIKE ?\<close> with the parameter \<open>f'%{source_file.split()[0]}%'\<close>. The index
  \<open>[0]\<close> raises when the text has no token.
\<close>

definition fetch_by_source ::
    "pystr \<Rightarrow> database \<Rightarrow> py_error + (sqlval \<times> sqlval \<times> sqlval) list" where
  "fetch_by_source source_file db =
     (case py_split source_file of
        [] \<Rightarrow> Inl IndexError
      | token # _ \<Rightarrow>
          (case map_of db pricelists_metadata of
             None \<Rightarrow> Inl OperationalError
           | Some t \<Rightarrow>
               Inr (map (\<lambda>r. (cell_at r (asc ''table_name''), cell_at r (asc ''source_sheet''),
                              cell_at r (asc ''row_count'')))
                     (filter (\<lambda>r. like_value ([37] @ token @ [37]) (cell_at r (asc ''source_file'')))
                        (t_rows t)))))"

section \<open>Definitions for stating the claims on the reporting surface\<close>

text \<open>The rows of the metadata table whose file name contains a piece matching the token.\<close>

definition matches_token :: "pystr \<Rightarrow> bindings \<Rightarrow> bool" where
  "matches_token token r \<longleftrightarrow>
     (\<exists>name mid. cell_at r (asc ''source_file'') = VText name \<and> sublist mid name
        \<and> list_all2 char_like token mid)"

definition is_text :: "sqlval \<Rightarrow> bool" where
  "is_text v = (case v of VText s \<Rightarrow> True | _ \<Rightarrow> False)"


definition example_metadata :: table where
  "example_metadata =
     \<lparr>t_cols = [asc ''id'', asc ''table_name'', asc ''source_file'', asc ''source_sheet'',
                asc ''row_count'', asc ''column_count'', asc ''processed_at'',
                asc ''file_size_mb'', asc ''file_format''],
      t_notnull = [asc ''table_name'', asc ''source_file''], t_unique = [asc ''table_name''],
      t_rows = [[(asc ''table_name'', VText (asc ''A'')), (asc ''source_file'', VText (asc ''A.csv'')),
                 (asc ''source_sheet'', VText (asc ''CSV'')), (asc ''row_count'', VInt 2)],
                [(asc ''table_name'', VText (asc ''b'')), (asc ''source_file'', VText (asc ''b.csv'')),
                 (asc ''source_sheet'', VText (asc ''CSV'')), (asc ''row_count'', VInt 3)]]\<rparr>"

definition example_catalog :: database where
  "example_catalog = [(pricelists_metadata, example_metadata)]"

text \<open>The filter of the claim, in its words: the stored file name contains the whole query.\<close>

definition contains_query :: "pystr \<Rightarrow> bindings \<Rightarrow> bool" where
  "contains_query q r =
     (case cell_at r (asc ''source_file'') of VText name \<Rightarrow> sublist q name | _ \<Rightarrow> False)"

section \<open>Definitions for stating the claims on the two insertions\<close>





section \<open>Definitions for stating the claims on the pipeline\<close>





section \<open>Definitions for stating the claims on the column sanitizer\<close>

text \<open>
  The sanitizer called without a set, in the words of its description, step by step: each
  of the thirty listed characters becomes an underscore and every other character stays
  where it is; every run of underscores becomes one underscore; the underscores at both
  ends are trimmed; an empty name becomes the placeholder; the leading run of digits is
  removed and the underscores at both ends are trimmed again; an empty name becomes the
  placeholder; the name is cut to its first 50 characters.
\<close>

definition listed_to_underscore :: "pystr \<Rightarrow> pystr" where
  "listed_to_underscore x = map (\<lambda>c. if c \<in> set invalid_chars then 95 else c) x"

definition sanitize_spec :: "pystr \<Rightarrow> pystr" where
  "sanitize_spec x =
     (let a = strip_char 95 (collapse_runs (listed_to_underscore x));
          b = (if a = [] then unnamed_column else a);
          c = strip_char 95 (dropWhile is_digit b);
          d = (if c = [] then unnamed_column else c)
      in take 50 d)"

section \<open>Properties of the sanitizers and of the detector\<close>

lemma foldl_replace_chars:
  "foldl (\<lambda>s c. replace_char c 95 s) s cs = map (\<lambda>x. if x \<in> set cs then 95 else x) s"
  by (induction cs arbitrary: s) (auto simp: replace_char_def)

lemma set_replace_double_underscore: "set (replace_double_underscore s) \<subseteq> set s"
  by (induction s rule: replace_double_underscore.induct) auto

lemma set_collapse_underscores: "set (collapse_underscores s) \<subseteq> set s"
proof (induction s rule: collapse_underscores.induct)
  case (1 s)
  then show ?case
    using set_replace_double_underscore [of s] by (subst collapse_underscores.simps) auto
qed

lemma collapse_underscores_no_double: "\<not> sublist [95, 95] (collapse_underscores s)"
proof (induction s rule: collapse_underscores.induct)
  case (1 s)
  then show ?case
    by (subst collapse_underscores.simps) auto
qed

lemma sublist_strip_char: "sublist (strip_char c s) s"
proof -
  let ?t = "dropWhile (\<lambda>x. x = c) s"
  have "sublist (rev (dropWhile (\<lambda>x. x = c) (rev ?t))) ?t"
    by (simp add: sublist_rev_left)
  moreover have "sublist ?t s"
    by simp
  ultimately show ?thesis
    unfolding strip_char_def by (rule sublist_order.order_trans)
qed

lemma strip_char_hd:
  assumes "strip_char c s \<noteq> []"
  shows "hd (strip_char c s) \<noteq> c"
proof -
  let ?P = "\<lambda>x. x = c"
  let ?t = "dropWhile ?P s"
  let ?u = "dropWhile ?P (rev ?t)"
  from assms have u: "?u \<noteq> []"
    by (simp add: strip_char_def)
  then have t: "?t \<noteq> []"
    by (auto dest: set_dropWhileD)
  then have ht: "\<not> ?P (hd ?t)"
    by (rule hd_dropWhile)
  have mem: "hd ?t \<in> set (rev ?t)"
    using t by simp
  from mem ht have "last ?u = last (rev ?t)"
    by (rule dropWhile_last)
  then have "hd (rev ?u) = hd ?t"
    by (simp add: hd_rev last_rev)
  with ht show ?thesis
    by (simp add: strip_char_def)
qed

lemma no_double_sublist: "sublist t s \<Longrightarrow> \<not> sublist p s \<Longrightarrow> \<not> sublist p t"
  using sublist_order.order_trans by blast

lemma unnamed_column_facts:
  "unnamed_column \<noteq> []" "hd unnamed_column \<noteq> 95" "\<not> sublist [95, 95] unnamed_column"
  "set unnamed_column \<inter> set invalid_chars = {}" "length unnamed_column \<le> 50"
  "\<not> is_digit (hd unnamed_column)"
  by (simp_all add: unnamed_column_def asc_def sublist_code invalid_chars_def is_digit_def)

lemma normalize_name_props:
  "normalize_name x \<noteq> []"
  "hd (normalize_name x) \<noteq> 95"
  "\<not> sublist [95, 95] (normalize_name x)"
  "length (normalize_name x) \<le> 50"
  "set (normalize_name x) \<subseteq> (set x - set invalid_chars) \<union> {95} \<union> set unnamed_column"
proof -
  define s1 where "s1 = foldl (\<lambda>s c. replace_char c 95 s) x invalid_chars"
  define s2 where "s2 = collapse_underscores s1"
  define s3 where "s3 = strip_char 95 s2"
  define s4 where "s4 = (if s3 = [] then unnamed_column else s3)"
  define s5 where "s5 = strip_leading_digits s4"
  define s6 where "s6 = strip_char 95 s5"
  define s7 where "s7 = (if s6 = [] then unnamed_column else s6)"
  have n: "normalize_name x = (if length s7 > 50 then take 50 s7 else s7)"
    by (simp add: normalize_name_def Let_def s1_def s2_def s3_def s4_def s5_def s6_def s7_def)
  have s7_ne: "s7 \<noteq> []"
    by (simp add: s7_def unnamed_column_facts)
  have s7_hd: "hd s7 \<noteq> 95"
    using strip_char_hd [of 95 s5] by (simp add: s7_def s6_def unnamed_column_facts)
  show "normalize_name x \<noteq> []"
    using s7_ne by (simp add: n)
  show "hd (normalize_name x) \<noteq> 95"
    using s7_hd by (simp add: n)
  show "length (normalize_name x) \<le> 50"
    by (simp add: n)
  have d2: "\<not> sublist [95, 95] s2"
    by (simp add: s2_def collapse_underscores_no_double)
  have d3: "\<not> sublist [95, 95] s3"
    using d2 sublist_strip_char [of 95 s2] no_double_sublist unfolding s3_def by blast
  have d4: "\<not> sublist [95, 95] s4"
    using d3 by (simp add: s4_def unnamed_column_facts)
  have "sublist s5 s4"
    by (simp add: s5_def strip_leading_digits_def)
  with d4 have d5: "\<not> sublist [95, 95] s5"
    using no_double_sublist by blast
  have d6: "\<not> sublist [95, 95] s6"
    using d5 sublist_strip_char [of 95 s5] no_double_sublist unfolding s6_def by blast
  have d7: "\<not> sublist [95, 95] s7"
    using d6 by (simp add: s7_def unnamed_column_facts)
  have "sublist (normalize_name x) s7"
    by (simp add: n)
  with d7 show "\<not> sublist [95, 95] (normalize_name x)"
    using no_double_sublist by blast
  let ?A = "(set x - set invalid_chars) \<union> {95} \<union> set unnamed_column"
  have "s1 = map (\<lambda>c. if c \<in> set invalid_chars then 95 else c) x"
    by (simp add: s1_def foldl_replace_chars)
  then have c1: "set s1 \<subseteq> ?A"
    by auto
  have c2: "set s2 \<subseteq> ?A"
    using c1 set_collapse_underscores [of s1] by (auto simp: s2_def)
  have c3: "set s3 \<subseteq> ?A"
    using c2 set_mono_sublist [OF sublist_strip_char [of 95 s2]] by (auto simp: s3_def)
  have c4: "set s4 \<subseteq> ?A"
    using c3 by (auto simp: s4_def)
  have c5: "set s5 \<subseteq> ?A"
    using c4 set_dropWhileD [of _ is_digit s4] by (auto simp: s5_def strip_leading_digits_def)
  have c6: "set s6 \<subseteq> ?A"
    using c5 set_mono_sublist [OF sublist_strip_char [of 95 s5]] by (auto simp: s6_def)
  have c7: "set s7 \<subseteq> ?A"
    using c6 by (auto simp: s7_def)
  show "set (normalize_name x) \<subseteq> ?A"
    using c7 set_take_subset [of 50 s7] by (auto simp: n)
qed

lemma dedup_loop_fresh: "dedup_loop n ex cur k \<notin> set ex"
proof (induction n ex cur k rule: dedup_loop.induct)
  case (1 n ex cur k)
  then show ?case
    by (subst dedup_loop.simps) auto
qed

lemma dedup_loop_not_in: "cur \<notin> set ex \<Longrightarrow> dedup_loop n ex cur k = cur"
  by (subst dedup_loop.simps) simp

lemma dedup_loop_first_free:
  "cur \<in> set ex \<Longrightarrow>
     \<exists>j\<ge>k. dedup_loop n ex cur k = candidate n j \<and> candidate n j \<notin> set ex
       \<and> (\<forall>i. k \<le> i \<and> i < j \<longrightarrow> candidate n i \<in> set ex)"
proof (induction n ex cur k rule: dedup_loop.induct)
  case (1 n ex cur k)
  have step: "dedup_loop n ex cur k = dedup_loop n ex (candidate n k) (k + 1)"
    using "1.prems" by (subst dedup_loop.simps) simp
  show ?case
  proof (cases "candidate n k \<in> set ex")
    case False
    then have "dedup_loop n ex cur k = candidate n k"
      by (simp add: step dedup_loop_not_in)
    with False show ?thesis
      by (intro exI [of _ k]) auto
  next
    case True
    with "1.IH" "1.prems" obtain j where j: "k + 1 \<le> j"
      "dedup_loop n ex (candidate n k) (k + 1) = candidate n j"
      "candidate n j \<notin> set ex"
      "\<forall>i. k + 1 \<le> i \<and> i < j \<longrightarrow> candidate n i \<in> set ex"
      by blast
    have "\<forall>i. k \<le> i \<and> i < j \<longrightarrow> candidate n i \<in> set ex"
    proof (intro allI impI)
      fix i assume "k \<le> i \<and> i < j"
      then show "candidate n i \<in> set ex"
        using True j(4) by (cases "i = k") auto
    qed
    with j show ?thesis
      by (intro exI [of _ j]) (auto simp: step)
  qed
qed

lemma collapse_runs_set: "set (collapse_runs s) \<subseteq> set s"
  by (induction s rule: collapse_runs.induct) auto

lemma strip_char_all: "set s \<subseteq> {c} \<Longrightarrow> strip_char c s = []"
proof -
  assume "set s \<subseteq> {c}"
  then have h: "dropWhile (\<lambda>x. x = c) s = []"
    by (auto simp: dropWhile_eq_Nil_conv)
  show ?thesis
    unfolding strip_char_def h by simp
qed

lemma strip_char_Nil: "strip_char c [] = []"
  by (simp add: strip_char_def)

text \<open>
  Claim C7. When every character of the file stem lies outside \<open>[A-Za-z0-9_]\<close> and there
  is no sheet name (absent or empty) or the sheet is the \<open>"CSV"\<close> sentinel, the table-name
  sanitizer returns the placeholder \<open>unnamed_table\<close>.
\<close>

theorem get_safe_table_name_placeholder:
  assumes "\<forall>c\<in>set stem. \<not> is_word_char c"
    and "sheet = None \<or> sheet = Some [] \<or> sheet = Some (asc ''CSV'')"
  shows "get_safe_table_name stem sheet = unnamed_table"
proof -
  let ?t1 = "map (\<lambda>c. if is_word_char c then c else 95) stem"
  have "set ?t1 \<subseteq> {95}"
    using assms(1) by auto
  then have "set (collapse_runs ?t1) \<subseteq> {95}"
    using collapse_runs_set [of ?t1] by blast
  then have t3: "strip_char 95 (collapse_runs ?t1) = []"
    by (rule strip_char_all)
  have hd: "\<not> is_digit (hd unnamed_table)"
    by (simp add: unnamed_table_def asc_def is_digit_def)
  have t0: "(case sheet of None \<Rightarrow> stem
      | Some sh \<Rightarrow> if sh \<noteq> [] \<and> sh \<noteq> asc ''CSV'' then stem @ [95] @ sh else stem) = stem"
    using assms(2) by auto
  show ?thesis
    unfolding get_safe_table_name_def Let_def t0 t3
    by (simp add: strip_leading_digits_def strip_char_Nil hd)
qed

lemma cell_matches_vocabulary: "cell_matches lower ws val = matches_vocabulary lower ws val"
  by (cases val) (auto simp: cell_matches_def matches_vocabulary_def Let_def list_ex_iff)

lemma matching_cells_filter:
  "matching_cells lower ws row = length (filter (cell_matches lower ws) row)"
  by (simp add: matching_cells_def length_filter_conv_card cell_matches_vocabulary)

lemma counters_matching_cells:
  "found_headers lower row = matching_cells lower typical_headers row"
  "strong_matches lower row = matching_cells lower strong_headers row"
  "service_count lower row = matching_cells lower service_words row"
  by (simp_all add: found_headers_def strong_matches_def service_count_def matching_cells_filter)

lemma detect_loop_first:
  "detect_loop lower df is = find (\<lambda>i. qualifies_as_header lower (df ! i)) is"
  by (induction "is") (auto simp: qualifies_as_header_def Let_def counters_matching_cells)

text \<open>
  Claim C1. The detector returns the index of the first row, among the first 30, that
  qualifies as a header in the sense of the specification (\<^const>\<open>qualifies_as_header\<close>,
  stated on the number of matching cells and not on the counters of the code): a row with
  more than 2 boilerplate cells never qualifies, whatever its other counts, and otherwise
  3 cells of the header vocabulary or 2 strong-indicator cells suffice. When no row among
  the first 30 qualifies it returns 0.
\<close>

theorem detect_data_start_row_first_qualifying:
  "(\<forall>i. i < min 30 (length df) \<and> qualifies_as_header lower (df ! i)
        \<and> (\<forall>j<i. \<not> qualifies_as_header lower (df ! j))
      \<longrightarrow> detect_data_start_row lower df = i)
   \<and> ((\<forall>i<min 30 (length df). \<not> qualifies_as_header lower (df ! i))
      \<longrightarrow> detect_data_start_row lower df = 0)"
proof (intro conjI allI impI)
  fix i
  assume a: "i < min 30 (length df) \<and> qualifies_as_header lower (df ! i)
    \<and> (\<forall>j<i. \<not> qualifies_as_header lower (df ! j))"
  let ?n = "min 30 (length df)"
  have "find (\<lambda>i. qualifies_as_header lower (df ! i)) [0..<?n] = Some i"
    unfolding find_Some_iff using a by (intro exI [of _ i]) auto
  then show "detect_data_start_row lower df = i"
    by (simp add: detect_data_start_row_def detect_loop_first)
next
  assume "\<forall>i<min 30 (length df). \<not> qualifies_as_header lower (df ! i)"
  then have "find (\<lambda>i. qualifies_as_header lower (df ! i)) [0..<min 30 (length df)] = None"
    by (auto simp: find_None_iff)
  then show "detect_data_start_row lower df = 0"
    by (simp add: detect_data_start_row_def detect_loop_first)
qed



theorem get_safe_table_name_placeholder_witness:
  "get_safe_table_name [1062, 1077, 1085, 1072] (Some (asc ''CSV'')) = unnamed_table"
  using get_safe_table_name_placeholder [of "[1062, 1077, 1085, 1072]" "Some (asc ''CSV'')"]
  by (simp add: is_word_char_def is_digit_def)

lemmas eval_defs = cell_matches_def Let_def py_strip_def py_isspace_def lower_basic_def
  sublist_code asc_def

lemma banner_row_service: "matching_cells lower_basic service_words banner_row = 3"
  by (simp add: matching_cells_filter service_words_def banner_row_def eval_defs)

lemma banner_row_strong: "matching_cells lower_basic strong_headers banner_row = 2"
  by (simp add: matching_cells_filter strong_headers_def banner_row_def eval_defs)

lemma header_row_service: "matching_cells lower_basic service_words header_row = 0"
  by (simp add: matching_cells_filter service_words_def header_row_def eval_defs)

lemma header_row_strong: "matching_cells lower_basic strong_headers header_row = 2"
  by (simp add: matching_cells_filter strong_headers_def header_row_def eval_defs)

lemma currency_row_service: "matching_cells lower_basic service_words currency_row = 0"
  by (simp add: matching_cells_filter service_words_def currency_row_def eval_defs)

lemma currency_row_strong: "matching_cells lower_basic strong_headers currency_row = 0"
  by (simp add: matching_cells_filter strong_headers_def currency_row_def eval_defs)

lemma currency_row_typical: "matching_cells lower_basic typical_headers currency_row = 3"
  by (simp add: matching_cells_filter typical_headers_def currency_row_def eval_defs)

lemma title_row_counts:
  "matching_cells lower_basic typical_headers [CStr (asc ''Price list''), CNull, CNull, CNull] = 0"
  "matching_cells lower_basic strong_headers [CStr (asc ''Price list''), CNull, CNull, CNull] = 0"
  by (simp_all add: matching_cells_filter typical_headers_def strong_headers_def eval_defs)

theorem detect_data_start_row_first_qualifying_witness:
  "detect_data_start_row lower_basic example_grid = 1
   \<and> matching_cells lower_basic service_words (example_grid ! 0) = 3
   \<and> matching_cells lower_basic strong_headers (example_grid ! 0) = 2
   \<and> matching_cells lower_basic strong_headers (example_grid ! 1) = 2
   \<and> detect_data_start_row lower_basic currency_grid = 1
   \<and> matching_cells lower_basic typical_headers (currency_grid ! 1) = 3
   \<and> matching_cells lower_basic strong_headers (currency_grid ! 1) = 0
   \<and> detect_data_start_row lower_basic [[CInt 1, CNull]] = 0"
proof -
  have q0: "\<not> qualifies_as_header lower_basic (example_grid ! 0)"
    by (simp add: qualifies_as_header_def example_grid_def banner_row_service)
  have q1: "qualifies_as_header lower_basic (example_grid ! 1)"
    by (simp add: qualifies_as_header_def example_grid_def header_row_service header_row_strong)
  have "1 < min 30 (length example_grid) \<and> qualifies_as_header lower_basic (example_grid ! 1)
      \<and> (\<forall>j<1. \<not> qualifies_as_header lower_basic (example_grid ! j))"
    using q0 q1 by (simp add: example_grid_def)
  with detect_data_start_row_first_qualifying [of example_grid lower_basic]
  have a: "detect_data_start_row lower_basic example_grid = 1"
    by blast
  have r0: "\<not> qualifies_as_header lower_basic (currency_grid ! 0)"
    by (simp add: qualifies_as_header_def currency_grid_def title_row_counts)
  have r1: "qualifies_as_header lower_basic (currency_grid ! 1)"
    by (simp add: qualifies_as_header_def currency_grid_def currency_row_service
        currency_row_typical)
  have "1 < min 30 (length currency_grid) \<and> qualifies_as_header lower_basic (currency_grid ! 1)
      \<and> (\<forall>j<1. \<not> qualifies_as_header lower_basic (currency_grid ! j))"
    using r0 r1 by (simp add: currency_grid_def)
  with detect_data_start_row_first_qualifying [of currency_grid lower_basic]
  have b: "detect_data_start_row lower_basic currency_grid = 1"
    by blast
  have "\<forall>i<min 30 (length [[CInt 1, CNull]]).
      \<not> qualifies_as_header lower_basic ([[CInt 1, CNull]] ! i)"
    by (simp add: qualifies_as_header_def matching_cells_filter cell_matches_def)
  with detect_data_start_row_first_qualifying [of "[[CInt 1, CNull]]" lower_basic]
  have c: "detect_data_start_row lower_basic [[CInt 1, CNull]] = 0"
    by blast
  from a b c show ?thesis
    by (simp add: example_grid_def currency_grid_def banner_row_service banner_row_strong
        header_row_strong currency_row_typical currency_row_strong)
qed

lemma strip_char_last:
  assumes "strip_char c s \<noteq> []"
  shows "last (strip_char c s) \<noteq> c"
proof -
  let ?P = "\<lambda>x. x = c"
  let ?u = "dropWhile ?P (rev (dropWhile ?P s))"
  from assms have u: "?u \<noteq> []"
    by (simp add: strip_char_def)
  then have "\<not> ?P (hd ?u)"
    by (rule hd_dropWhile)
  then show ?thesis
    by (simp add: strip_char_def last_rev)
qed

lemma normalize_name_last:
  assumes "length (normalize_name x) < 50"
  shows "last (normalize_name x) \<noteq> 95"
proof -
  define s5 where "s5 = strip_leading_digits
    (let s3 = strip_char 95 (collapse_underscores
        (foldl (\<lambda>s c. replace_char c 95 s) x invalid_chars))
     in if s3 = [] then unnamed_column else s3)"
  define s7 where "s7 = (if strip_char 95 s5 = [] then unnamed_column else strip_char 95 s5)"
  have n: "normalize_name x = (if length s7 > 50 then take 50 s7 else s7)"
    by (simp add: normalize_name_def Let_def s5_def s7_def)
  have "last s7 \<noteq> 95"
    using strip_char_last [of 95 s5] by (simp add: s7_def unnamed_column_def asc_def)
  with assms show ?thesis
    by (simp add: n split: if_splits)
qed

lemma collapse_runs_replace:
  "collapse_runs (replace_double_underscore s) = collapse_runs s
   \<and> (\<forall>c. collapse_runs (c # replace_double_underscore s) = collapse_runs (c # s))"
proof (induction s rule: replace_double_underscore.induct)
  case (1 a b s)
  show ?case
  proof (cases "a = 95 \<and> b = 95")
    case True
    with 1 show ?thesis by auto
  next
    case False
    with 1 show ?thesis by auto
  qed
qed simp_all

lemma collapse_runs_id: "\<not> sublist [95, 95] s \<Longrightarrow> collapse_runs s = s"
  by (induction s rule: collapse_runs.induct) (auto simp: sublist_code)

lemma collapse_underscores_runs: "collapse_underscores s = collapse_runs s"
proof (induction s rule: collapse_underscores.induct)
  case (1 s)
  show ?case
  proof (cases "sublist [95, 95] s")
    case True
    with 1 have "collapse_underscores (replace_double_underscore s)
        = collapse_runs (replace_double_underscore s)"
      by simp
    with True show ?thesis
      by (subst collapse_underscores.simps) (simp add: collapse_runs_replace)
  next
    case False
    then show ?thesis
      by (subst collapse_underscores.simps) (simp add: collapse_runs_id)
  qed
qed

lemma normalize_name_spec: "normalize_name x = sanitize_spec x"
  by (simp add: normalize_name_def sanitize_spec_def Let_def foldl_replace_chars
      listed_to_underscore_def collapse_underscores_runs strip_leading_digits_def)

lemma filter_dropWhile_same:
  "filter (\<lambda>c. c \<noteq> k) (dropWhile (\<lambda>c. c = k) s) = filter (\<lambda>c. c \<noteq> k) s"
  by (induction s) auto

lemma filter_strip_char: "filter (\<lambda>c. c \<noteq> k) (strip_char k s) = filter (\<lambda>c. c \<noteq> k) s"
proof -
  have "filter (\<lambda>c. c \<noteq> k) (strip_char k s)
      = rev (filter (\<lambda>c. c \<noteq> k) (dropWhile (\<lambda>c. c = k) (rev (dropWhile (\<lambda>c. c = k) s))))"
    by (simp add: strip_char_def rev_filter)
  also have "\<dots> = rev (filter (\<lambda>c. c \<noteq> k) (rev (dropWhile (\<lambda>c. c = k) s)))"
    by (simp only: filter_dropWhile_same)
  also have "\<dots> = filter (\<lambda>c. c \<noteq> k) s"
    by (simp add: rev_filter [symmetric] filter_dropWhile_same)
  finally show ?thesis .
qed

lemma filter_collapse_runs: "filter (\<lambda>c. c \<noteq> 95) (collapse_runs s) = filter (\<lambda>c. c \<noteq> 95) s"
  by (induction s rule: collapse_runs.induct) auto

lemma sublist_filter: "sublist a b \<Longrightarrow> sublist (filter P a) (filter P b)"
proof -
  assume "sublist a b"
  then obtain ps ss where "b = ps @ a @ ss"
    by (auto simp: sublist_def)
  then have "filter P b = filter P ps @ filter P a @ filter P ss"
    by simp
  then show ?thesis
    unfolding sublist_def by blast
qed

lemma placeholder_fixed:
  "strip_char 95 (dropWhile is_digit unnamed_column) = unnamed_column"
  "take 50 unnamed_column = unnamed_column"
  by (simp_all add: unnamed_column_def asc_def is_digit_def strip_char_def)

lemma sanitize_spec_kept:
  "sanitize_spec x = unnamed_column
   \<or> sublist (filter (\<lambda>c. c \<noteq> 95) (sanitize_spec x))
        (filter (\<lambda>c. c \<noteq> 95) (listed_to_underscore x))"
proof -
  define a where "a = strip_char 95 (collapse_runs (listed_to_underscore x))"
  define c where "c = strip_char 95 (dropWhile is_digit a)"
  consider "a = []" | "a \<noteq> []" "c = []" | "a \<noteq> []" "c \<noteq> []"
    by blast
  then show ?thesis
  proof cases
    case 1
    then have "sanitize_spec x = unnamed_column"
      unfolding sanitize_spec_def Let_def a_def [symmetric]
      by (simp add: placeholder_fixed unnamed_column_facts)
    then show ?thesis by simp
  next
    case 2
    then have "sanitize_spec x = unnamed_column"
      unfolding sanitize_spec_def Let_def a_def [symmetric]
      by (simp add: c_def [symmetric] placeholder_fixed)
    then show ?thesis by simp
  next
    case 3
    then have s: "sanitize_spec x = take 50 c"
      unfolding sanitize_spec_def Let_def a_def [symmetric]
      by (simp add: c_def [symmetric])
    have fa: "filter (\<lambda>c. c \<noteq> 95) a = filter (\<lambda>c. c \<noteq> 95) (listed_to_underscore x)"
      by (simp add: a_def filter_strip_char filter_collapse_runs)
    have "sublist (take 50 c) c" by simp
    moreover have "sublist c (dropWhile is_digit a)"
      unfolding c_def by (rule sublist_strip_char)
    moreover have "sublist (dropWhile is_digit a) a" by simp
    ultimately have "sublist (take 50 c) a"
      using sublist_order.order_trans by blast
    then have "sublist (filter (\<lambda>c. c \<noteq> 95) (take 50 c)) (filter (\<lambda>c. c \<noteq> 95) a)"
      by (rule sublist_filter)
    then show ?thesis
      by (simp add: s fa)
  qed
qed

text \<open>
  Claim C4, as the code has it. Called without a set, the column sanitizer computes
  \<^const>\<open>sanitize_spec\<close>: it replaces each of the thirty characters of \<open>invalid_chars\<close> with
  an underscore and keeps every other character, inside or outside \<open>[A-Za-z0-9_]\<close>
  (Cyrillic letters stay), collapses the runs of underscores, trims the underscores at
  both ends, removes the leading run of digits once, puts the placeholder for an empty
  name and cuts at 50 characters. So the result has none of the thirty characters, each
  of its characters is an underscore, a character of the input or a character of the
  placeholder, and unless it is the placeholder its characters other than underscores
  are a contiguous piece of those of the input, in their order. It has no run of two
  underscores and no leading underscore, a trailing one only when the name was cut at 50
  characters, and it is never empty and never longer than 50 characters.
\<close>

theorem sanitize_replaces_listed_characters:
  "sanitize x = sanitize_spec x
   \<and> sanitize x \<noteq> [] \<and> length (sanitize x) \<le> 50
   \<and> hd (sanitize x) \<noteq> 95
   \<and> \<not> sublist [95, 95] (sanitize x)
   \<and> (length (sanitize x) < 50 \<longrightarrow> last (sanitize x) \<noteq> 95)
   \<and> (\<forall>c\<in>set (sanitize x). c \<notin> set invalid_chars
        \<and> (c = 95 \<or> c \<in> set x \<or> c \<in> set unnamed_column))
   \<and> (sanitize x = unnamed_column
        \<or> sublist (filter (\<lambda>c. c \<noteq> 95) (sanitize x))
             (filter (\<lambda>c. c \<noteq> 95) (listed_to_underscore x)))"
proof -
  have s: "sanitize x = normalize_name x"
    by (simp add: sanitize_def clean_column_name_def)
  have "set unnamed_column \<inter> set invalid_chars = {}"
    by (rule unnamed_column_facts)
  moreover have "95 \<notin> set invalid_chars"
    by (simp add: invalid_chars_def)
  ultimately have a: "\<forall>c\<in>set (normalize_name x). c \<notin> set invalid_chars
      \<and> (c = 95 \<or> c \<in> set x \<or> c \<in> set unnamed_column)"
    using normalize_name_props(5) [of x] by blast
  have b: "normalize_name x = unnamed_column
      \<or> sublist (filter (\<lambda>c. c \<noteq> 95) (normalize_name x))
           (filter (\<lambda>c. c \<noteq> 95) (listed_to_underscore x))"
    using sanitize_spec_kept [of x] by (simp add: normalize_name_spec)
  have c: "normalize_name x = sanitize_spec x"
    by (rule normalize_name_spec)
  have d: "length (normalize_name x) < 50 \<longrightarrow> last (normalize_name x) \<noteq> 95"
    using normalize_name_last [of x] by simp
  show ?thesis
    unfolding s
    by (intro conjI c a b d normalize_name_props(1-4))
qed

lemma sanitize_price: "sanitize [1062, 1077, 1085, 1072, 32, 40, 1088, 1091, 1073, 46, 41]
    = [1062, 1077, 1085, 1072, 95, 1088, 1091, 1073]"
  by code_simp

lemma sanitize_spec_price:
  "listed_to_underscore [1062, 1077, 1085, 1072, 32, 40, 1088, 1091, 1073, 46, 41]
     = [1062, 1077, 1085, 1072, 95, 95, 1088, 1091, 1073, 95, 95]"
  by code_simp

theorem sanitize_replaces_listed_characters_witness:
  "sanitize [1062, 1077, 1085, 1072, 32, 40, 1088, 1091, 1073, 46, 41]
     = [1062, 1077, 1085, 1072, 95, 1088, 1091, 1073]
   \<and> sanitize_spec [1062, 1077, 1085, 1072, 32, 40, 1088, 1091, 1073, 46, 41]
     = [1062, 1077, 1085, 1072, 95, 1088, 1091, 1073]
   \<and> listed_to_underscore [1062, 1077, 1085, 1072, 32, 40, 1088, 1091, 1073, 46, 41]
     = [1062, 1077, 1085, 1072, 95, 95, 1088, 1091, 1073, 95, 95]
   \<and> list_all (\<lambda>c. c \<notin> set invalid_chars)
        (sanitize [1062, 1077, 1085, 1072, 32, 40, 1088, 1091, 1073, 46, 41])
   \<and> last (sanitize [1062, 1077, 1085, 1072, 32, 40, 1088, 1091, 1073, 46, 41]) \<noteq> 95"
proof -
  let ?x = "[1062, 1077, 1085, 1072, 32, 40, 1088, 1091, 1073, 46, 41] :: pystr"
  note t = sanitize_replaces_listed_characters [of ?x]
  note t5 = t [THEN conjunct2, THEN conjunct2, THEN conjunct2, THEN conjunct2, THEN conjunct2]
  have len: "length (sanitize ?x) < 50"
    by (simp only: sanitize_price) simp
  have e: "sanitize ?x = sanitize_spec ?x"
    by (rule t [THEN conjunct1])
  have l: "last (sanitize ?x) \<noteq> 95"
    using t5 [THEN conjunct1] len by (rule mp)
  have i: "\<forall>c\<in>set (sanitize ?x). c \<notin> set invalid_chars"
    using t5 [THEN conjunct2, THEN conjunct1] by blast
  have sp: "sanitize_spec ?x = [1062, 1077, 1085, 1072, 95, 1088, 1091, 1073]"
    using e by (simp only: sanitize_price)
  have li: "list_all (\<lambda>c. c \<notin> set invalid_chars) (sanitize ?x)"
    using i by (simp only: list_all_iff)
  from sanitize_price sp sanitize_spec_price li l show ?thesis
    by (intro conjI)
qed

text \<open>
  The claim C4 as stated fails: a Cyrillic name passes through unchanged, so the output
  is not confined to \<open>[A-Za-z0-9_]\<close>.
\<close>

theorem sanitize_keeps_cyrillic:
  "sanitize [1094, 1077, 1085, 1072] = [1094, 1077, 1085, 1072]
   \<and> \<not> list_all is_word_char (sanitize [1094, 1077, 1085, 1072])"
  by code_simp

text \<open>
  Claim C5 (idempotence of the sanitizer called without a set) fails on the code at the
  input \<open>1_2abc\<close>: the leading digit run is removed once, the underscore it exposes is
  trimmed, and the digit then standing first is removed only by a second call.
\<close>

theorem sanitize_not_idempotent:
  "sanitize (asc ''1_2abc'') = asc ''2abc''
   \<and> sanitize (sanitize (asc ''1_2abc'')) = asc ''abc''
   \<and> sanitize (sanitize (asc ''1_2abc'')) \<noteq> sanitize (asc ''1_2abc'')"
  by code_simp

lemma sanitize_in_eq:
  "sanitize_in x ex =
     (dedup_loop (sanitize x) ex (sanitize x) 1,
      List.insert (dedup_loop (sanitize x) ex (sanitize x) 1) ex)"
  by (simp add: sanitize_in_def sanitize_def clean_column_name_def Let_def)

lemma chosen_name:
  "(if b \<in> set ex
    then \<exists>j\<ge>1. dedup_loop b ex b 1 = candidate b j
           \<and> (\<forall>i. 1 \<le> i \<and> i < j \<longrightarrow> candidate b i \<in> set ex)
    else dedup_loop b ex b 1 = b)"
  using dedup_loop_first_free [where cur = b and ex = ex and n = b and k = 1]
    dedup_loop_not_in [where cur = b and ex = ex and n = b and k = 1]
  by auto

text \<open>
  Claim C6. The sanitizer is called with a set on the labels of a parsed table, which
  are text (lines 182 and 183). Two names sanitized one after the other against the same
  set get distinct outputs; each output is the sanitized base name when that is free, and
  otherwise the base name with the first suffix \<open>_1\<close>, \<open>_2\<close>, ... that is free; each chosen
  name was not in the set and is added to it. When the two sanitized forms collide, the
  second output carries a suffix.
\<close>

theorem sanitizer_disambiguates:
  assumes "sanitize_in x ex = (n1, ex1)" and "sanitize_in y ex1 = (n2, ex2)"
  shows "n1 \<noteq> n2 \<and> n1 \<notin> set ex \<and> n2 \<notin> set ex1
    \<and> set ex1 = insert n1 (set ex) \<and> set ex2 = insert n2 (set ex1)
    \<and> (if sanitize x \<in> set ex
        then \<exists>j\<ge>1. n1 = candidate (sanitize x) j
               \<and> (\<forall>i. 1 \<le> i \<and> i < j \<longrightarrow> candidate (sanitize x) i \<in> set ex)
        else n1 = sanitize x)
    \<and> (if sanitize y \<in> set ex1
        then \<exists>j\<ge>1. n2 = candidate (sanitize y) j
               \<and> (\<forall>i. 1 \<le> i \<and> i < j \<longrightarrow> candidate (sanitize y) i \<in> set ex1)
        else n2 = sanitize y)
    \<and> (sanitize x = sanitize y \<longrightarrow> (\<exists>j\<ge>1. n2 = candidate (sanitize y) j))"
proof -
  from assms(1) have n1: "n1 = dedup_loop (sanitize x) ex (sanitize x) 1"
    and ex1: "ex1 = List.insert n1 ex"
    by (auto simp: sanitize_in_eq)
  from assms(2) have n2: "n2 = dedup_loop (sanitize y) ex1 (sanitize y) 1"
    and ex2: "ex2 = List.insert n2 ex1"
    by (auto simp: sanitize_in_eq)
  have f1: "n1 \<notin> set ex"
    unfolding n1 by (rule dedup_loop_fresh)
  have f2: "n2 \<notin> set ex1"
    unfolding n2 by (rule dedup_loop_fresh)
  have s1: "set ex1 = insert n1 (set ex)"
    by (simp add: ex1)
  have s2: "set ex2 = insert n2 (set ex1)"
    by (simp add: ex2)
  have d: "n1 \<noteq> n2"
    using f2 s1 by auto
  have c1: "(if sanitize x \<in> set ex
        then \<exists>j\<ge>1. n1 = candidate (sanitize x) j
               \<and> (\<forall>i. 1 \<le> i \<and> i < j \<longrightarrow> candidate (sanitize x) i \<in> set ex)
        else n1 = sanitize x)"
    unfolding n1 by (rule chosen_name)
  have c2: "(if sanitize y \<in> set ex1
        then \<exists>j\<ge>1. n2 = candidate (sanitize y) j
               \<and> (\<forall>i. 1 \<le> i \<and> i < j \<longrightarrow> candidate (sanitize y) i \<in> set ex1)
        else n2 = sanitize y)"
    unfolding n2 by (rule chosen_name)
  have "sanitize x \<in> set ex1"
    using c1 s1 by (auto split: if_splits)
  with c2 have c3: "sanitize x = sanitize y \<longrightarrow> (\<exists>j\<ge>1. n2 = candidate (sanitize y) j)"
    by (auto split: if_splits)
  from d f1 f2 s1 s2 c1 c2 c3 show ?thesis
    by blast
qed

theorem sanitizer_disambiguates_witness:
  "sanitize_in (asc ''a b'') [] = (asc ''a_b'', [asc ''a_b''])
   \<and> sanitize_in (asc ''a-b'') [asc ''a_b''] = (asc ''a_b_1'', [asc ''a_b_1'', asc ''a_b''])
   \<and> asc ''a_b'' \<noteq> asc ''a_b_1''"
proof -
  have a: "sanitize_in (asc ''a b'') [] = (asc ''a_b'', [asc ''a_b''])"
    by code_simp
  have b: "sanitize_in (asc ''a-b'') [asc ''a_b''] = (asc ''a_b_1'', [asc ''a_b_1'', asc ''a_b''])"
    by code_simp
  from sanitizer_disambiguates [OF a b] have "asc ''a_b'' \<noteq> asc ''a_b_1''"
    by blast
  with a b show ?thesis
    by blast
qed

section \<open>Properties of the fetch filtered by source file\<close>

lemma sql_like_percent: "sql_like [37] s"
  by (induction s) auto

lemma sql_like_exact:
  "37 \<notin> set t \<Longrightarrow> sql_like t s \<longleftrightarrow> list_all2 char_like t s"
proof (induction t arbitrary: s)
  case Nil
  then show ?case by auto
next
  case (Cons p ps)
  then show ?case by (cases s) auto
qed

lemma sql_like_prefix:
  "37 \<notin> set t \<Longrightarrow>
     sql_like (t @ [37]) s \<longleftrightarrow> (\<exists>mid post. s = mid @ post \<and> list_all2 char_like t mid)"
proof (induction t arbitrary: s)
  case Nil
  then show ?case by (simp add: sql_like_percent)
next
  case (Cons p ps)
  show ?case
  proof (cases s)
    case Nil
    then show ?thesis using Cons.prems by simp
  next
    case (Cons c cs)
    have "sql_like ((p # ps) @ [37]) (c # cs) \<longleftrightarrow> char_like p c \<and> sql_like (ps @ [37]) cs"
      using Cons.prems by simp
    also have "\<dots> \<longleftrightarrow> char_like p c
        \<and> (\<exists>mid post. cs = mid @ post \<and> list_all2 char_like ps mid)"
      using Cons.IH [of cs] Cons.prems by simp
    also have "\<dots> \<longleftrightarrow> (\<exists>mid post. c # cs = mid @ post \<and> list_all2 char_like (p # ps) mid)"
    proof
      assume "char_like p c \<and> (\<exists>mid post. cs = mid @ post \<and> list_all2 char_like ps mid)"
      then obtain mid post where "cs = mid @ post" "list_all2 char_like ps mid" "char_like p c"
        by blast
      then have "c # cs = (c # mid) @ post \<and> list_all2 char_like (p # ps) (c # mid)"
        by simp
      then show "\<exists>mid post. c # cs = mid @ post \<and> list_all2 char_like (p # ps) mid"
        by blast
    next
      assume "\<exists>mid post. c # cs = mid @ post \<and> list_all2 char_like (p # ps) mid"
      then obtain mid post where m: "c # cs = mid @ post" "list_all2 char_like (p # ps) mid"
        by blast
      from m(2) obtain c' mid' where mid: "mid = c' # mid'" "char_like p c'"
        "list_all2 char_like ps mid'"
        by (auto simp: list_all2_Cons1)
      with m(1) have "c' = c" "cs = mid' @ post"
        by simp_all
      with mid show "char_like p c
          \<and> (\<exists>mid post. cs = mid @ post \<and> list_all2 char_like ps mid)"
        by blast
    qed
    finally show ?thesis using Cons by simp
  qed
qed

lemma sql_like_leading_percent:
  "sql_like (37 # u) s \<longleftrightarrow> (\<exists>pre rest. s = pre @ rest \<and> sql_like u rest)"
proof (induction s)
  case Nil
  then show ?case by simp
next
  case (Cons c cs)
  have "sql_like (37 # u) (c # cs) \<longleftrightarrow> sql_like u (c # cs) \<or> sql_like (37 # u) cs"
    by simp
  also have "\<dots> \<longleftrightarrow> sql_like u (c # cs) \<or> (\<exists>pre rest. cs = pre @ rest \<and> sql_like u rest)"
    using Cons.IH by simp
  also have "\<dots> \<longleftrightarrow> (\<exists>pre rest. c # cs = pre @ rest \<and> sql_like u rest)"
  proof
    assume "sql_like u (c # cs) \<or> (\<exists>pre rest. cs = pre @ rest \<and> sql_like u rest)"
    then show "\<exists>pre rest. c # cs = pre @ rest \<and> sql_like u rest"
    proof
      assume "sql_like u (c # cs)"
      then have "c # cs = [] @ (c # cs) \<and> sql_like u (c # cs)"
        by simp
      then show ?thesis by blast
    next
      assume "\<exists>pre rest. cs = pre @ rest \<and> sql_like u rest"
      then obtain pre rest where "cs = pre @ rest" "sql_like u rest"
        by blast
      then have "c # cs = (c # pre) @ rest \<and> sql_like u rest"
        by simp
      then show ?thesis by blast
    qed
  next
    assume "\<exists>pre rest. c # cs = pre @ rest \<and> sql_like u rest"
    then obtain pre rest where pr: "c # cs = pre @ rest" "sql_like u rest"
      by blast
    show "sql_like u (c # cs) \<or> (\<exists>pre rest. cs = pre @ rest \<and> sql_like u rest)"
    proof (cases pre)
      case Nil
      with pr show ?thesis by simp
    next
      case (Cons a pre')
      with pr have "cs = pre' @ rest"
        by simp
      with pr(2) show ?thesis by blast
    qed
  qed
  finally show ?case .
qed

lemma sql_like_contains:
  assumes "37 \<notin> set t"
  shows "sql_like ([37] @ t @ [37]) s \<longleftrightarrow> (\<exists>mid. sublist mid s \<and> list_all2 char_like t mid)"
proof -
  have "sql_like ([37] @ t @ [37]) s
      \<longleftrightarrow> (\<exists>pre rest. s = pre @ rest \<and> sql_like (t @ [37]) rest)"
    using sql_like_leading_percent [of "t @ [37]" s] by simp
  also have "\<dots> \<longleftrightarrow> (\<exists>pre rest. s = pre @ rest
      \<and> (\<exists>mid post. rest = mid @ post \<and> list_all2 char_like t mid))"
    using sql_like_prefix [OF assms] by simp
  also have "\<dots> \<longleftrightarrow> (\<exists>mid. sublist mid s \<and> list_all2 char_like t mid)"
    unfolding sublist_def by blast
  finally show ?thesis .
qed

lemma like_value_text:
  assumes "37 \<notin> set token" and "is_text (cell_at r (asc ''source_file''))"
  shows "like_value ([37] @ token @ [37]) (cell_at r (asc ''source_file'')) = matches_token token r"
proof -
  from assms(2) obtain name where n: "cell_at r (asc ''source_file'') = VText name"
    by (auto simp: is_text_def split: sqlval.splits)
  show ?thesis
    unfolding matches_token_def n like_value_def using sql_like_contains [OF assms(1)]
    by simp
qed

text \<open>
  Claim C9, as the code has it. The fetch filtered by source file uses the first
  white-space-separated token of the query only, inside a \<open>LIKE\<close> pattern
  \<open>%token%\<close>: for a token without \<open>%\<close> it returns exactly the metadata rows whose
  stored file name contains a piece that matches the token character by character,
  ASCII letters without regard to case and \<open>_\<close> in the token matching any character.
  A query without a token raises \<open>IndexError\<close>, and nothing is returned.
\<close>

theorem fetch_by_source_first_token:
  assumes "map_of db pricelists_metadata = Some t"
    and "\<forall>r\<in>set (t_rows t). is_text (cell_at r (asc ''source_file''))"
  shows "(py_split q = [] \<longrightarrow> fetch_by_source q db = Inl IndexError)
    \<and> (\<forall>token rest. py_split q = token # rest \<and> 37 \<notin> set token \<longrightarrow>
         fetch_by_source q db =
           Inr (map (\<lambda>r. (cell_at r (asc ''table_name''), cell_at r (asc ''source_sheet''),
                          cell_at r (asc ''row_count'')))
                 (filter (matches_token token) (t_rows t))))"
proof (intro conjI allI impI)
  assume "py_split q = []"
  then show "fetch_by_source q db = Inl IndexError"
    by (simp add: fetch_by_source_def)
next
  fix token rest
  assume a: "py_split q = token # rest \<and> 37 \<notin> set token"
  have "filter (\<lambda>r. like_value ([37] @ token @ [37]) (cell_at r (asc ''source_file'')))
      (t_rows t) = filter (matches_token token) (t_rows t)"
    using assms(2) a like_value_text by (intro filter_cong) auto
  then show "fetch_by_source q db =
      Inr (map (\<lambda>r. (cell_at r (asc ''table_name''), cell_at r (asc ''source_sheet''),
                     cell_at r (asc ''row_count'')))
            (filter (matches_token token) (t_rows t)))"
    using a assms(1) by (simp add: fetch_by_source_def)
qed

lemmas eval_catalog = example_catalog_def example_metadata_def pricelists_metadata_def asc_def
  cell_at_def fetch_by_source_def py_split_def py_isspace_def like_value_def char_like_def
  ascii_fold_def

lemma fetch_example:
  "fetch_by_source (asc ''a b'') example_catalog
     = Inr [(VText (asc ''A''), VText (asc ''CSV''), VInt 2)]"
  by (simp add: eval_catalog)

text \<open>
  The claim C9 as stated fails: the query \<open>a b\<close> is contained in no stored file name,
  yet the row of \<open>A.csv\<close> is returned (the first token \<open>a\<close> matches \<open>A\<close>).
\<close>

theorem fetch_by_source_not_substring:
  "fetch_by_source (asc ''a b'') example_catalog
     \<noteq> Inr (map (\<lambda>r. (cell_at r (asc ''table_name''), cell_at r (asc ''source_sheet''),
                       cell_at r (asc ''row_count'')))
              (filter (contains_query (asc ''a b'')) (t_rows example_metadata)))"
proof -
  have "filter (contains_query (asc ''a b'')) (t_rows example_metadata) = []"
    by (simp add: contains_query_def example_metadata_def asc_def cell_at_def sublist_code)
  then show ?thesis
    by (simp add: fetch_example)
qed

theorem fetch_by_source_first_token_witness:
  "map (\<lambda>r. (cell_at r (asc ''table_name''), cell_at r (asc ''source_sheet''),
               cell_at r (asc ''row_count'')))
     (filter (matches_token (asc ''a'')) (t_rows example_metadata))
     = [(VText (asc ''A''), VText (asc ''CSV''), VInt 2)]
   \<and> fetch_by_source (asc '' '') example_catalog = Inl IndexError"
proof -
  have t: "map_of example_catalog pricelists_metadata = Some example_metadata"
    by (simp add: example_catalog_def)
  have tx: "\<forall>r\<in>set (t_rows example_metadata). is_text (cell_at r (asc ''source_file''))"
    by (simp add: example_metadata_def asc_def cell_at_def is_text_def)
  have s1: "py_split (asc ''a b'') = asc ''a'' # [asc ''b''] \<and> 37 \<notin> set (asc ''a'')"
    by (simp add: py_split_def py_isspace_def asc_def)
  have s2: "py_split (asc '' '') = []"
    by (simp add: py_split_def py_isspace_def asc_def)
  from fetch_by_source_first_token [OF t tx, of "asc ''a b''"] s1
  have "fetch_by_source (asc ''a b'') example_catalog =
      Inr (map (\<lambda>r. (cell_at r (asc ''table_name''), cell_at r (asc ''source_sheet''),
                     cell_at r (asc ''row_count'')))
            (filter (matches_token (asc ''a'')) (t_rows example_metadata)))"
    by blast
  then have a: "map (\<lambda>r. (cell_at r (asc ''table_name''), cell_at r (asc ''source_sheet''),
               cell_at r (asc ''row_count'')))
     (filter (matches_token (asc ''a'')) (t_rows example_metadata))
     = [(VText (asc ''A''), VText (asc ''CSV''), VInt 2)]"
    by (simp add: fetch_example)
  from fetch_by_source_first_token [OF t tx, of "asc '' ''"] s2
  have b: "fetch_by_source (asc '' '') example_catalog = Inl IndexError"
    by blast
  from a b show ?thesis
    by blast
qed

section \<open>Properties of the two insertions\<close>










section \<open>Properties of the pipeline\<close>





end
